theory Spec2Isabelle
  imports Complex_Main
begin

section \<open>IdleSmith: the save state and the game rules of \<^verbatim>\<open>src/idlesmith.jsx\<close>\<close>

text \<open>
  The numbers of a save are modelled as real numbers, with exact arithmetic. The cost of an
  upgrade is the one computation of the program that leaves the range of a double within a
  few thousand levels; it is modelled in double arithmetic, with a result that is a number or
  \<^verbatim>\<open>Infinity\<close>. The fields of a save have the types of \<^verbatim>\<open>defaultSave\<close>; a stored or pasted
  object whose fields have another JSON type is outside this model.
\<close>

type_synonym number = real

subsection \<open>Utility helpers\<close>

text \<open>\<^verbatim>\<open>const clamp = (n, min, max) => Math.max(min, Math.min(max, n));\<close>\<close>

definition clamp :: "number \<Rightarrow> number \<Rightarrow> number \<Rightarrow> number" where
  "clamp n lo hi = max lo (min hi n)"

subsection \<open>The save state\<close>

datatype upgrade_key = Hammer | Anvil | Forge | Apprentice

record prestige_rec =
  count :: number
  essence :: number

record save =
  version :: number
  gold :: number
  goldPerClickBase :: number
  goldPerSecondBase :: number
  upgrades :: "upgrade_key \<Rightarrow> number"
  prestige :: prestige_rec
  lastTick :: number

text \<open>
  \<^verbatim>\<open>defaultSave\<close> is a module constant whose \<^verbatim>\<open>lastTick\<close> is \<^verbatim>\<open>Date.now()\<close> at the time the
  module is evaluated; that time is the parameter \<open>t0\<close>.
\<close>

definition defaultSave :: "number \<Rightarrow> save" where
  "defaultSave t0 =
     \<lparr> version = 1,
       gold = 0,
       goldPerClickBase = 1,
       goldPerSecondBase = 0,
       upgrades = (\<lambda>k. 0),
       prestige = \<lparr> count = 0, essence = 0 \<rparr>,
       lastTick = t0 \<rparr>"

subsection \<open>Upgrade definitions\<close>

text \<open>The \<^verbatim>\<open>icon\<close> field of an upgrade definition is display only and is left out.\<close>

record upgrade_def =
  name :: string
  desc :: string
  baseCost :: number
  costMult :: number
  effect :: "number \<Rightarrow> number"

fun UPGRADE_DEFS :: "upgrade_key \<Rightarrow> upgrade_def" where
  "UPGRADE_DEFS Hammer =
     \<lparr> name = ''Hammer'', desc = ''+1 base gold/click per level'',
       baseCost = 10, costMult = 115 / 100, effect = (\<lambda>lvl. lvl * 1) \<rparr>"
| "UPGRADE_DEFS Anvil =
     \<lparr> name = ''Anvil'', desc = ''+0.5 base gold/sec per level'',
       baseCost = 25, costMult = 118 / 100, effect = (\<lambda>lvl. lvl * (5 / 10)) \<rparr>"
| "UPGRADE_DEFS Forge =
     \<lparr> name = ''Forge'', desc = ''+10% global income per level'',
       baseCost = 100, costMult = 125 / 100, effect = (\<lambda>lvl. 1 + lvl * (1 / 10)) \<rparr>"
| "UPGRADE_DEFS Apprentice =
     \<lparr> name = ''Apprentice'', desc = ''Auto-clicks 1x/sec per level'',
       baseCost = 75, costMult = 122 / 100, effect = (\<lambda>lvl. lvl) \<rparr>"

subsection \<open>Double arithmetic of the cost\<close>

text \<open>
  A value of the cost computation: a finite number or \<^verbatim>\<open>Infinity\<close>. Every operand of the
  computation is positive, so \<^verbatim>\<open>-Infinity\<close> and \<^verbatim>\<open>NaN\<close> do not arise in it.
\<close>

datatype jsnum = Num number | Infinity

text \<open>The largest finite double, \<^verbatim>\<open>(2 - 2^-52) * 2^1023\<close>.\<close>

definition DBL_MAX :: real where
  "DBL_MAX = 2 ^ 1024 - 2 ^ 971"

text \<open>
  \<^verbatim>\<open>Math.pow\<close> (an approximation that the engine chooses) and the multiplication of two
  doubles are parameters of the model: any pair of functions that behaves as doubles do on
  the arguments of the cost computation. The first argument of the power is the decimal
  cost multiplier of the source, which the engine reads as the nearest double; the bound
  \<open>rel_err\<close> on the relative error covers that conversion, the error of the power and the
  rounding of the product, for multipliers between 1.15 and 1.25 and levels that are not
  negative.
  \<^item> \<^verbatim>\<open>Math.pow(x, 0)\<close> is exactly 1.
  \<^item> A finite result of the power is within \<open>rel_err\<close> of the exact power, relatively, and at
    most \<open>DBL_MAX\<close>; the result is finite when the exact power, enlarged by \<open>rel_err\<close>, is at
    most \<open>DBL_MAX\<close>.
  \<^item> A whole number up to \<open>2 ^ 53\<close> times 1 is that number.
  \<^item> A finite product of two numbers from 1 upwards is within \<open>rel_err\<close> of the exact product,
    relatively, and at most \<open>DBL_MAX\<close>; the product is finite when the exact product, enlarged
    by \<open>rel_err\<close>, is at most \<open>DBL_MAX\<close>.
\<close>

definition rel_err :: real where
  "rel_err = 1 / 2 ^ 36"

definition double_like :: "(real \<Rightarrow> real \<Rightarrow> jsnum) \<Rightarrow> (real \<Rightarrow> real \<Rightarrow> jsnum) \<Rightarrow> bool" where
  "double_like pw tm \<longleftrightarrow>
     (\<forall>x. pw x 0 = Num 1)
     \<and> (\<forall>x y p. 115 / 100 \<le> x \<and> x \<le> 125 / 100 \<and> 0 \<le> y \<and> pw x y = Num p
            \<longrightarrow> \<bar>p - x powr y\<bar> \<le> rel_err * x powr y \<and> p \<le> DBL_MAX)
     \<and> (\<forall>x y. 115 / 100 \<le> x \<and> x \<le> 125 / 100 \<and> 0 \<le> y \<and> x powr y * (1 + rel_err) \<le> DBL_MAX
            \<longrightarrow> pw x y \<noteq> Infinity)
     \<and> (\<forall>a. a \<in> \<nat> \<and> a \<le> 2 ^ 53 \<longrightarrow> tm a 1 = Num a)
     \<and> (\<forall>a b q. 1 \<le> a \<and> 1 \<le> b \<and> tm a b = Num q
            \<longrightarrow> \<bar>q - a * b\<bar> \<le> rel_err * (a * b) \<and> q \<le> DBL_MAX)
     \<and> (\<forall>a b. 1 \<le> a \<and> 1 \<le> b \<and> a * b * (1 + rel_err) \<le> DBL_MAX \<longrightarrow> tm a b \<noteq> Infinity)"

definition exact_pow :: "real \<Rightarrow> real \<Rightarrow> jsnum" where
  "exact_pow x y =
     (if y = 0 then Num 1 else if x powr y \<le> DBL_MAX then Num (x powr y) else Infinity)"

definition exact_times :: "real \<Rightarrow> real \<Rightarrow> jsnum" where
  "exact_times a b = (if a * b \<le> DBL_MAX then Num (a * b) else Infinity)"

text \<open>
  The type of such pairs. It is not empty: exact arithmetic that overflows above \<open>DBL_MAX\<close>
  is one of them.
\<close>

typedef float_ops = "{(pw, tm). double_like pw tm}"
  morphisms ops_of Abs_float_ops
proof
  have DBL_MAX_ge_53: "2 ^ 53 \<le> DBL_MAX"
  proof -
    have "(2::real) ^ 53 \<le> 2 ^ 1023" "(2::real) ^ 971 \<le> 2 ^ 1023"
      by (rule power_increasing; simp)+
    moreover have "(2::real) ^ 1024 = 2 * 2 ^ 1023" by simp
    ultimately show ?thesis unfolding DBL_MAX_def by linarith
  qed
  have rel_err_pos: "0 < rel_err" by (simp add: rel_err_def)
  have "double_like exact_pow exact_times"
    unfolding double_like_def
  proof (intro conjI allI impI)
    fix x show "exact_pow x 0 = Num 1"
      by (simp add: exact_pow_def)
  next
    fix x y p
    assume "115 / 100 \<le> x \<and> x \<le> 125 / 100 \<and> 0 \<le> y \<and> exact_pow x y = Num p"
    then have "p = x powr y" "p \<le> DBL_MAX"
      using DBL_MAX_ge_53 by (auto simp add: exact_pow_def split: if_splits)
    then show "\<bar>p - x powr y\<bar> \<le> rel_err * x powr y" "p \<le> DBL_MAX"
      using rel_err_pos by simp_all
  next
    fix x y :: real
    assume a: "115 / 100 \<le> x \<and> x \<le> 125 / 100 \<and> 0 \<le> y \<and> x powr y * (1 + rel_err) \<le> DBL_MAX"
    have "0 \<le> x powr y * rel_err" using rel_err_pos by simp
    then have "x powr y \<le> x powr y * (1 + rel_err)" by (simp add: algebra_simps)
    with a have "x powr y \<le> DBL_MAX" by linarith
    then show "exact_pow x y \<noteq> Infinity" by (simp add: exact_pow_def)
  next
    fix a :: real
    assume "a \<in> \<nat> \<and> a \<le> 2 ^ 53"
    then have "a \<le> DBL_MAX" using DBL_MAX_ge_53 by linarith
    then show "exact_times a 1 = Num a" by (simp add: exact_times_def)
  next
    fix a b q :: real
    assume "1 \<le> a \<and> 1 \<le> b \<and> exact_times a b = Num q"
    then have q: "q = a * b" "q \<le> DBL_MAX" and "0 \<le> a * b"
      by (auto simp add: exact_times_def split: if_splits)
    then show "\<bar>q - a * b\<bar> \<le> rel_err * (a * b)" "q \<le> DBL_MAX"
      using rel_err_pos by simp_all
  next
    fix a b :: real
    assume a: "1 \<le> a \<and> 1 \<le> b \<and> a * b * (1 + rel_err) \<le> DBL_MAX"
    then have "0 \<le> a * b * rel_err" using rel_err_pos by simp
    then have "a * b \<le> a * b * (1 + rel_err)" by (simp add: algebra_simps)
    with a have "a * b \<le> DBL_MAX" by linarith
    then show "exact_times a b \<noteq> Infinity" by (simp add: exact_times_def)
  qed
  then show "(exact_pow, exact_times) \<in> {(pw, tm). double_like pw tm}" by simp
qed

definition Math_pow :: "float_ops \<Rightarrow> real \<Rightarrow> real \<Rightarrow> jsnum" where
  "Math_pow F = fst (ops_of F)"

definition double_times :: "float_ops \<Rightarrow> real \<Rightarrow> real \<Rightarrow> jsnum" where
  "double_times F = snd (ops_of F)"

fun js_times :: "float_ops \<Rightarrow> real \<Rightarrow> jsnum \<Rightarrow> jsnum" where
  "js_times F a (Num b) = double_times F a b"
| "js_times F a Infinity = Infinity"

fun Math_floor :: "jsnum \<Rightarrow> jsnum" where
  "Math_floor (Num x) = Num (of_int \<lfloor>x\<rfloor>)"
| "Math_floor Infinity = Infinity"


text \<open>\<^verbatim>\<open>Math.floor(def.baseCost * Math.pow(def.costMult, lvl))\<close>\<close>

definition upgradeCost :: "float_ops \<Rightarrow> upgrade_key \<Rightarrow> number \<Rightarrow> jsnum" where
  "upgradeCost F key lvl =
     (let def = UPGRADE_DEFS key
      in Math_floor (js_times F (baseCost def) (Math_pow F (costMult def) lvl)))"

text \<open>Exact arithmetic with overflow, as a value of the type.\<close>

definition exact_ops :: float_ops where
  "exact_ops = Abs_float_ops (exact_pow, exact_times)"

subsection \<open>Derived stats\<close>

record derived =
  click :: number
  gps :: number
  globalMult :: number
  autoClicksPerSec :: number

definition computeDerived :: "save \<Rightarrow> derived" where
  "computeDerived sv =
     (let hammer = effect (UPGRADE_DEFS Hammer) (upgrades sv Hammer);
          anvil = effect (UPGRADE_DEFS Anvil) (upgrades sv Anvil);
          forgeMult = effect (UPGRADE_DEFS Forge) (upgrades sv Forge);
          essenceMult = 1 + essence (prestige sv) * (2 / 100);
          gm = forgeMult * essenceMult;
          c = (goldPerClickBase sv + hammer) * gm;
          g = (goldPerSecondBase sv + anvil) * gm;
          a = effect (UPGRADE_DEFS Apprentice) (upgrades sv Apprentice)
      in \<lparr> click = c, gps = g, globalMult = gm, autoClicksPerSec = a \<rparr>)"

subsection \<open>Handlers of the component\<close>

text \<open>
  A handler of the component reads the save of the render it was created in (the variable
  \<^verbatim>\<open>save\<close> and the derived stats memoised from it) and hands React an updater that
  is applied to the state current at that moment (the updater's argument \<^verbatim>\<open>s\<close>). Both
  are arguments of the model: \<open>sv\<close> is the rendered save, \<open>s\<close> the state the
  updater receives. \<^verbatim>\<open>Date.now()\<close> is the argument \<open>now\<close>.
\<close>

text \<open>The effect that applies offline progress on mount.\<close>

definition applyOffline :: "save \<Rightarrow> number \<Rightarrow> save \<Rightarrow> save" where
  "applyOffline sv now s =
     (let d = computeDerived sv;
          deltaSec = clamp ((now - lastTick sv) / 1000) 0 (60 * 60 * 8)
      in if deltaSec > 1 \<and> (gps d > 0 \<or> autoClicksPerSec d > 0)
         then (let goldFromIdle = deltaSec * (gps d + autoClicksPerSec d * click d)
               in s\<lparr> gold := gold s + goldFromIdle, lastTick := now \<rparr>)
         else s)"

text \<open>The main game loop: the updater of one second of income, the \<^verbatim>\<open>while\<close> loop
  over the carry, and the frame callback \<^verbatim>\<open>loop\<close>.\<close>

definition tick :: "save \<Rightarrow> number \<Rightarrow> save \<Rightarrow> save" where
  "tick sv now s =
     (let d = computeDerived sv
      in s\<lparr> gold := gold s + gps d + autoClicksPerSec d * click d, lastTick := now \<rparr>)"

function loop_while :: "save \<Rightarrow> number \<Rightarrow> number \<times> save \<Rightarrow> number \<times> save" where
  "loop_while sv now (c, s) =
     (if c \<ge> 1 then loop_while sv now (c - 1, tick sv now s) else (c, s))"
  by pat_completeness auto
termination
  by (relation "measure (\<lambda>(sv, now, c, s). nat \<lfloor>c\<rfloor>)") auto

declare loop_while.simps [simp del]

record loop_state =
  lastFrame :: number
  carry :: number

definition frame_dt :: "number \<Rightarrow> number \<Rightarrow> number" where
  "frame_dt t lf = min (25 / 100) ((t - lf) / 1000)"

definition loop :: "save \<Rightarrow> number \<Rightarrow> number \<Rightarrow> loop_state \<times> save \<Rightarrow> loop_state \<times> save" where
  "loop sv now t st =
     (let dt = frame_dt t (lastFrame (fst st));
          (c, s) = loop_while sv now (carry (fst st) + dt, snd st)
      in (\<lparr> lastFrame = t, carry = c \<rparr>, s))"

definition doClick :: "save \<Rightarrow> save \<Rightarrow> save" where
  "doClick sv s = s\<lparr> gold := gold s + click (computeDerived sv) \<rparr>"

text \<open>
  \<^verbatim>\<open>buyUpgrade\<close>: the cost and the guard are computed from the rendered save, the updater
  changes the state it receives. With a cost of \<^verbatim>\<open>Infinity\<close> the guard
  \<^verbatim>\<open>save.gold < cost\<close> holds and the handler returns.
\<close>

definition buyUpgrade :: "float_ops \<Rightarrow> save \<Rightarrow> upgrade_key \<Rightarrow> save \<Rightarrow> save" where
  "buyUpgrade F sv key s =
     (case upgradeCost F key (upgrades sv key) of
        Infinity \<Rightarrow> s
      | Num cost \<Rightarrow>
          if gold sv < cost then s
          else s\<lparr> gold := gold s - cost,
                  upgrades := (upgrades s)(key := upgrades s key + 1) \<rparr>)"

definition canPrestige :: "save \<Rightarrow> bool" where
  "canPrestige sv \<longleftrightarrow> gold sv \<ge> 50000"

definition essenceGain :: "save \<Rightarrow> number" where
  "essenceGain sv = of_int \<lfloor>sqrt (gold sv / 5000)\<rfloor>"

definition doPrestige :: "number \<Rightarrow> save \<Rightarrow> number \<Rightarrow> save \<Rightarrow> save" where
  "doPrestige t0 sv now s =
     (if \<not> canPrestige sv \<or> essenceGain sv \<le> 0 then s
      else (defaultSave t0)
             \<lparr> prestige := \<lparr> count = count (prestige s) + 1,
                             essence = essence (prestige s) + essenceGain sv \<rparr>,
               lastTick := now \<rparr>)"

text \<open>\<open>confirmed\<close> is the answer of the \<^verbatim>\<open>confirm\<close> dialog.\<close>

definition resetAll :: "number \<Rightarrow> bool \<Rightarrow> number \<Rightarrow> save \<Rightarrow> save" where
  "resetAll t0 confirmed now s =
     (if \<not> confirmed then s else (defaultSave t0)\<lparr> lastTick := now \<rparr>)"

subsection \<open>Persistence, export and import\<close>

text \<open>
  The object that \<^verbatim>\<open>JSON.parse\<close> returns is modelled by the fields of a save it has: each
  field is present or absent. Spreading it over a save, \<^verbatim>\<open>{ ...d, ...p }\<close>, takes the
  fields it has and leaves the others as they are in \<open>d\<close>; \<^verbatim>\<open>upgrades\<close> and
  \<^verbatim>\<open>prestige\<close> are taken as a whole (the merge is shallow).
\<close>

record partial_save =
  p_version :: "number option"
  p_gold :: "number option"
  p_goldPerClickBase :: "number option"
  p_goldPerSecondBase :: "number option"
  p_upgrades :: "(upgrade_key \<Rightarrow> number) option"
  p_prestige :: "prestige_rec option"
  p_lastTick :: "number option"

definition spread_over :: "save \<Rightarrow> partial_save \<Rightarrow> save" where
  "spread_over d p =
     \<lparr> version = (case p_version p of None \<Rightarrow> version d | Some v \<Rightarrow> v),
       gold = (case p_gold p of None \<Rightarrow> gold d | Some v \<Rightarrow> v),
       goldPerClickBase = (case p_goldPerClickBase p of None \<Rightarrow> goldPerClickBase d | Some v \<Rightarrow> v),
       goldPerSecondBase = (case p_goldPerSecondBase p of None \<Rightarrow> goldPerSecondBase d | Some v \<Rightarrow> v),
       upgrades = (case p_upgrades p of None \<Rightarrow> upgrades d | Some v \<Rightarrow> v),
       prestige = (case p_prestige p of None \<Rightarrow> prestige d | Some v \<Rightarrow> v),
       lastTick = (case p_lastTick p of None \<Rightarrow> lastTick d | Some v \<Rightarrow> v) \<rparr>"

text \<open>The object that has every field of a save.\<close>

definition all_fields :: "save \<Rightarrow> partial_save" where
  "all_fields sv =
     \<lparr> p_version = Some (version sv),
       p_gold = Some (gold sv),
       p_goldPerClickBase = Some (goldPerClickBase sv),
       p_goldPerSecondBase = Some (goldPerSecondBase sv),
       p_upgrades = Some (upgrades sv),
       p_prestige = Some (prestige sv),
       p_lastTick = Some (lastTick sv) \<rparr>"

datatype error = SecurityError | SyntaxError | InvalidCharacterError | URIError

text \<open>
  The functions of the browser that the persistence code calls are parameters of the model.
  A function that can throw returns \<open>Inl\<close> of the error.
\<close>

record platform =
  JSON_stringify :: "save \<Rightarrow> string"
  JSON_parse :: "string \<Rightarrow> error + partial_save"
  encodeURIComponent :: "string \<Rightarrow> error + string"
  decodeURIComponent :: "string \<Rightarrow> error + string"
  escape :: "string \<Rightarrow> string"
  unescape :: "string \<Rightarrow> string"
  btoa :: "string \<Rightarrow> error + string"
  atob :: "string \<Rightarrow> error + string"

text \<open>
  The body of the \<^verbatim>\<open>try\<close> block of \<^verbatim>\<open>loadSave\<close>. \<open>getItem\<close> is the outcome of
  \<^verbatim>\<open>localStorage.getItem("idlesmith-save")\<close>: an exception, \<^verbatim>\<open>null\<close> (\<open>None\<close>) or
  the stored text. \<^verbatim>\<open>!raw\<close> holds for \<^verbatim>\<open>null\<close> and for the empty text.
\<close>

definition loadSave_try :: "platform \<Rightarrow> number \<Rightarrow> error + string option \<Rightarrow> error + save" where
  "loadSave_try P t0 getItem =
     (case getItem of
        Inl e \<Rightarrow> Inl e
      | Inr None \<Rightarrow> Inr (defaultSave t0)
      | Inr (Some raw) \<Rightarrow>
          if raw = [] then Inr (defaultSave t0)
          else (case JSON_parse P raw of
                  Inl e \<Rightarrow> Inl e
                | Inr parsed \<Rightarrow> Inr (spread_over (defaultSave t0) parsed)))"

definition loadSave :: "platform \<Rightarrow> number \<Rightarrow> error + string option \<Rightarrow> save" where
  "loadSave P t0 getItem =
     (case loadSave_try P t0 getItem of
        Inl e \<Rightarrow> defaultSave t0
      | Inr sv \<Rightarrow> sv)"

text \<open>\<^verbatim>\<open>btoa(unescape(encodeURIComponent(JSON.stringify(save))))\<close>\<close>

definition exportSave :: "platform \<Rightarrow> save \<Rightarrow> error + string" where
  "exportSave P sv =
     (case encodeURIComponent P (JSON_stringify P sv) of
        Inl e \<Rightarrow> Inl e
      | Inr u \<Rightarrow> btoa P (unescape P u))"

text \<open>\<^verbatim>\<open>JSON.parse(decodeURIComponent(escape(atob(txt))))\<close>\<close>

definition decodeImport :: "platform \<Rightarrow> string \<Rightarrow> error + partial_save" where
  "decodeImport P txt =
     (case atob P txt of
        Inl e \<Rightarrow> Inl e
      | Inr b \<Rightarrow>
          (case decodeURIComponent P (escape P b) of
             Inl e \<Rightarrow> Inl e
           | Inr j \<Rightarrow> JSON_parse P j))"

text \<open>
  The \<^verbatim>\<open>try\<close>/\<^verbatim>\<open>catch\<close> of the import handler, on the outcome of the decoding: the new
  state and the text of the alert, if one is shown.
\<close>

definition importTry :: "number \<Rightarrow> error + partial_save \<Rightarrow> save \<Rightarrow> save \<times> string option" where
  "importTry t0 decoded cur =
     (case decoded of
        Inl e \<Rightarrow> (cur, Some ''Invalid save code'')
      | Inr obj \<Rightarrow> (spread_over (defaultSave t0) obj, None))"

text \<open>The import handler; \<open>answer\<close> is what \<^verbatim>\<open>prompt\<close> returns (\<^verbatim>\<open>null\<close> on cancel).\<close>

definition importSave :: "platform \<Rightarrow> number \<Rightarrow> string option \<Rightarrow> save \<Rightarrow> save \<times> string option" where
  "importSave P t0 answer cur =
     (case answer of
        None \<Rightarrow> (cur, None)
      | Some txt \<Rightarrow>
          if txt = [] then (cur, None)
          else importTry t0 (decodeImport P txt) cur)"

subsection \<open>Mounting the component\<close>

text \<open>
  The state is initialised with \<^verbatim>\<open>useState(loadSave)\<close>; the offline effect has an empty
  dependency list, so it runs once, after the first render, on the loaded save.
\<close>

definition mount :: "platform \<Rightarrow> number \<Rightarrow> error + string option \<Rightarrow> number \<Rightarrow> save" where
  "mount P t0 getItem now = (let sv = loadSave P t0 getItem in applyOffline sv now sv)"

subsection \<open>Sign constraints of the data model\<close>

text \<open>
  The data model gives every upgrade level, the essence and the two base rates a value that
  is not negative. Handlers do not check this; it is a hypothesis where a property needs it.
\<close>

definition nonneg_rates :: "save \<Rightarrow> bool" where
  "nonneg_rates sv \<longleftrightarrow>
     0 \<le> upgrades sv Hammer \<and> 0 \<le> upgrades sv Anvil \<and> 0 \<le> upgrades sv Forge
     \<and> 0 \<le> upgrades sv Apprentice \<and> 0 \<le> essence (prestige sv)
     \<and> 0 \<le> goldPerClickBase sv \<and> 0 \<le> goldPerSecondBase sv"

subsection \<open>Measures and runs used by the properties\<close>

text \<open>The income of one second, and the number of whole seconds in a carry.\<close>

definition income :: "save \<Rightarrow> number" where
  "income sv = (let d = computeDerived sv in gps d + autoClicksPerSec d * click d)"

definition whole_seconds :: "number \<Rightarrow> nat" where
  "whole_seconds c = (if 1 \<le> c then nat \<lfloor>c\<rfloor> else 0)"

text \<open>
  A save satisfies the invariant when its gold is not negative and it meets the sign
  constraints of the data model.
\<close>

definition save_ok :: "save \<Rightarrow> bool" where
  "save_ok s \<longleftrightarrow> 0 \<le> gold s \<and> nonneg_rates s"

text \<open>
  A run of the game, on pairs of the rendered save and the current state. A render makes the
  current state the rendered one. A click, a frame of the loop, the offline effect, prestige
  and the hard reset update the current state from the rendered save, which may be older. A
  purchase is in the relation only when it is dispatched from a render of the state it
  updates. An import is rejected, or accepted with a pasted object that, merged over the
  defaults, satisfies the invariant.
\<close>

inductive game_step :: "float_ops \<Rightarrow> number \<Rightarrow> save \<times> save \<Rightarrow> save \<times> save \<Rightarrow> bool"
  for F :: float_ops and t0 :: number where
  render: "game_step F t0 (sv, s) (s, s)"
| click: "game_step F t0 (sv, s) (sv, doClick sv s)"
| purchase: "game_step F t0 (s, s) (s, buyUpgrade F s key s)"
| frame: "game_step F t0 (sv, s) (sv, snd (loop sv now t (l, s)))"
| offline: "game_step F t0 (sv, s) (sv, applyOffline sv now s)"
| prestige: "game_step F t0 (sv, s) (sv, doPrestige t0 sv now s)"
| reset: "game_step F t0 (sv, s) (sv, resetAll t0 confirmed now s)"
| import_rejected: "game_step F t0 (sv, s) (sv, fst (importTry t0 (Inl e) s))"
| import_accepted:
    "save_ok (spread_over (defaultSave t0) obj)
     \<Longrightarrow> game_step F t0 (sv, s) (sv, fst (importTry t0 (Inr obj) s))"

text \<open>
  A platform for instantiating the persistence properties: it knows one JSON text \<open>j\<close>,
  the text of the object \<open>obj\<close>, and its text codecs are the identity.
\<close>

definition fixed_platform :: "string \<Rightarrow> partial_save \<Rightarrow> platform" where
  "fixed_platform j obj =
     \<lparr> JSON_stringify = (\<lambda>sv. j),
       JSON_parse = (\<lambda>t. if t = j then Inr obj else Inl SyntaxError),
       encodeURIComponent = Inr,
       decodeURIComponent = Inr,
       escape = (\<lambda>b. b),
       unescape = (\<lambda>u. u),
       btoa = Inr,
       atob = Inr \<rparr>"

section \<open>Properties\<close>

subsection \<open>Facts of the double arithmetic\<close>

lemma DBL_MAX_ge: "2 ^ 1023 \<le> DBL_MAX"
proof -
  have "(2::real) ^ 971 \<le> 2 ^ 1023" by (rule power_increasing) simp_all
  moreover have "(2::real) ^ 1024 = 2 * 2 ^ 1023" by simp
  ultimately show ?thesis unfolding DBL_MAX_def by linarith
qed

lemma DBL_MAX_ge_53: "2 ^ 53 \<le> DBL_MAX"
proof -
  have "(2::real) ^ 53 \<le> 2 ^ 1023" by (rule power_increasing) simp_all
  then show ?thesis using DBL_MAX_ge by linarith
qed


lemma rel_err_pos: "0 < rel_err" "rel_err \<le> 1 / 1000"
  by (simp_all add: rel_err_def)

lemma float_ops_like: "double_like (Math_pow F) (double_times F)"
  using ops_of[of F] by (simp add: Math_pow_def double_times_def case_prod_beta)

lemma Math_pow_zero: "Math_pow F x 0 = Num 1"
  using float_ops_like[of F] by (simp add: double_like_def)

lemma Math_pow_bounds:
  assumes "115 / 100 \<le> x" "x \<le> 125 / 100" "0 \<le> y" "Math_pow F x y = Num p"
  shows "x powr y * (1 - rel_err) \<le> p" "p \<le> x powr y * (1 + rel_err)" "p \<le> DBL_MAX"
proof -
  from float_ops_like[of F] assms
  have b: "\<bar>p - x powr y\<bar> \<le> rel_err * x powr y" and m: "p \<le> DBL_MAX"
    unfolding double_like_def by blast+
  from b show "x powr y * (1 - rel_err) \<le> p" "p \<le> x powr y * (1 + rel_err)"
    by (simp_all add: algebra_simps abs_le_iff)
  from m show "p \<le> DBL_MAX" .
qed

lemma Math_pow_finite:
  assumes "115 / 100 \<le> x" "x \<le> 125 / 100" "0 \<le> y" "x powr y * (1 + rel_err) \<le> DBL_MAX"
  shows "\<exists>p. Math_pow F x y = Num p"
proof -
  from float_ops_like[of F] assms have "Math_pow F x y \<noteq> Infinity"
    unfolding double_like_def by blast
  then show ?thesis by (cases "Math_pow F x y") simp_all
qed

lemma double_times_one:
  assumes "a \<in> \<nat>" "a \<le> 2 ^ 53"
  shows "double_times F a 1 = Num a"
  using float_ops_like[of F] assms unfolding double_like_def by blast

lemma double_times_bounds:
  assumes "1 \<le> a" "1 \<le> b" "double_times F a b = Num q"
  shows "a * b * (1 - rel_err) \<le> q" "q \<le> a * b * (1 + rel_err)" "q \<le> DBL_MAX"
proof -
  from float_ops_like[of F] assms
  have b: "\<bar>q - a * b\<bar> \<le> rel_err * (a * b)" and m: "q \<le> DBL_MAX"
    unfolding double_like_def by blast+
  from b show "a * b * (1 - rel_err) \<le> q" "q \<le> a * b * (1 + rel_err)"
    by (simp_all add: algebra_simps abs_le_iff)
  from m show "q \<le> DBL_MAX" .
qed

lemma double_times_finite:
  assumes "1 \<le> a" "1 \<le> b" "a * b * (1 + rel_err) \<le> DBL_MAX"
  shows "\<exists>q. double_times F a b = Num q"
proof -
  from float_ops_like[of F] assms have "double_times F a b \<noteq> Infinity"
    unfolding double_like_def by blast
  then show ?thesis by (cases "double_times F a b") simp_all
qed

lemma table_ranges:
  "115 / 100 \<le> costMult (UPGRADE_DEFS key)" "costMult (UPGRADE_DEFS key) \<le> 125 / 100"
  "10 \<le> baseCost (UPGRADE_DEFS key)" "baseCost (UPGRADE_DEFS key) \<le> 100"
  "baseCost (UPGRADE_DEFS key) \<in> \<nat>"
  by (cases key; simp)+

lemma upgradeCost_level0: "upgradeCost F key 0 = Num (baseCost (UPGRADE_DEFS key))"
proof -
  have "baseCost (UPGRADE_DEFS key) \<le> 2 ^ 53" using table_ranges(4)[of key] by simp
  then have "double_times F (baseCost (UPGRADE_DEFS key)) 1 = Num (baseCost (UPGRADE_DEFS key))"
    using table_ranges(5) by (intro double_times_one)
  moreover have "of_int \<lfloor>baseCost (UPGRADE_DEFS key)\<rfloor> = baseCost (UPGRADE_DEFS key)"
    by (cases key) simp_all
  ultimately show ?thesis by (simp add: upgradeCost_def Math_pow_zero)
qed

subsection \<open>The cost table\<close>

text \<open>
  Claim C10. The base costs are 10 (hammer), 25 (anvil), 75 (apprentice) and 100 (forge),
  the cost multipliers are 1.15, 1.18, 1.22 and 1.25 in the same order, and the cost of the
  first level of every upgrade is its base cost, in every double arithmetic.
\<close>

theorem cost_table_constants:
  "baseCost (UPGRADE_DEFS Hammer) = 10 \<and> costMult (UPGRADE_DEFS Hammer) = 115 / 100
   \<and> baseCost (UPGRADE_DEFS Anvil) = 25 \<and> costMult (UPGRADE_DEFS Anvil) = 118 / 100
   \<and> baseCost (UPGRADE_DEFS Apprentice) = 75 \<and> costMult (UPGRADE_DEFS Apprentice) = 122 / 100
   \<and> baseCost (UPGRADE_DEFS Forge) = 100 \<and> costMult (UPGRADE_DEFS Forge) = 125 / 100
   \<and> upgradeCost F key 0 = Num (baseCost (UPGRADE_DEFS key))
   \<and> upgradeCost F Hammer 0 = Num 10 \<and> upgradeCost F Anvil 0 = Num 25
   \<and> upgradeCost F Apprentice 0 = Num 75 \<and> upgradeCost F Forge 0 = Num 100"
  using upgradeCost_level0[of F key] upgradeCost_level0[of F Hammer] upgradeCost_level0[of F Anvil]
    upgradeCost_level0[of F Apprentice] upgradeCost_level0[of F Forge]
  by simp

subsection \<open>The cost curve\<close>

text \<open>The unrounded product behind a finite cost.\<close>

lemma upgradeCost_Num:
  fixes L :: nat and key :: upgrade_key
  defines "A \<equiv> baseCost (UPGRADE_DEFS key) * costMult (UPGRADE_DEFS key) ^ L"
  assumes c: "upgradeCost F key (real L) = Num c"
  shows "\<exists>q. c = of_int \<lfloor>q\<rfloor> \<and> A * (1 - rel_err)\<^sup>2 \<le> q \<and> q \<le> A * (1 + rel_err)\<^sup>2 \<and> q \<le> DBL_MAX"
proof -
  let ?b = "baseCost (UPGRADE_DEFS key)" and ?m = "costMult (UPGRADE_DEFS key)"
  note r = table_ranges[of key]
  have mpos: "0 < ?m" using r(1) by simp
  obtain q where q: "js_times F ?b (Math_pow F ?m (real L)) = Num q" and cq: "c = of_int \<lfloor>q\<rfloor>"
    using c by (cases "js_times F ?b (Math_pow F ?m (real L))") (simp_all add: upgradeCost_def)
  obtain p where p: "Math_pow F ?m (real L) = Num p" and t: "double_times F ?b p = Num q"
    using q by (cases "Math_pow F ?m (real L)") simp_all
  have pw: "?m powr (real L) = ?m ^ L" using mpos by (simp add: powr_realpow)
  have pb: "?m ^ L * (1 - rel_err) \<le> p" "p \<le> ?m ^ L * (1 + rel_err)"
    using Math_pow_bounds[OF r(1) r(2) _ p] by (simp_all add: pw)
  have p1: "1 \<le> p"
  proof (cases L)
    case 0
    then show ?thesis using p by (simp add: Math_pow_zero)
  next
    case (Suc n)
    have "1 \<le> ?m ^ n" using r(1) by (intro one_le_power) simp
    then have "115 / 100 * 1 \<le> ?m * ?m ^ n" using r(1) by (intro mult_mono) simp_all
    then have "115 / 100 \<le> ?m ^ L" using Suc by simp
    moreover have "999 / 1000 \<le> 1 - rel_err" using rel_err_pos(2) by simp
    ultimately have "115 / 100 * (999 / 1000) \<le> ?m ^ L * (1 - rel_err)"
      by (intro mult_mono) simp_all
    then show ?thesis using pb(1) by simp
  qed
  have b1: "1 \<le> ?b" using r(3) by simp
  have qb: "?b * p * (1 - rel_err) \<le> q" "q \<le> ?b * p * (1 + rel_err)" "q \<le> DBL_MAX"
    using double_times_bounds[OF b1 p1 t] by simp_all
  have e: "0 \<le> 1 - rel_err" "0 \<le> 1 + rel_err" using rel_err_pos by simp_all
  have "?b * (?m ^ L * (1 - rel_err)) * (1 - rel_err) \<le> ?b * p * (1 - rel_err)"
    using pb(1) b1 e by (intro mult_right_mono mult_left_mono) simp_all
  then have lo: "A * (1 - rel_err)\<^sup>2 \<le> q"
    using qb(1) by (simp add: A_def power2_eq_square algebra_simps)
  have "?b * p * (1 + rel_err) \<le> ?b * (?m ^ L * (1 + rel_err)) * (1 + rel_err)"
    using pb(2) b1 e by (intro mult_right_mono mult_left_mono) simp_all
  then have hi: "q \<le> A * (1 + rel_err)\<^sup>2"
    using qb(2) by (simp add: A_def power2_eq_square algebra_simps)
  show ?thesis using cq lo hi qb(3) by blast
qed

lemma err_squares:
  "997 / 1000 \<le> (1 - rel_err)\<^sup>2" "(1 + rel_err)\<^sup>2 \<le> 1 + 3 * rel_err" "(1 + rel_err)\<^sup>2 \<le> 1003 / 1000"
  "1 - 3 * rel_err \<le> (1 - rel_err)\<^sup>2"
proof -
  have e: "0 < rel_err" "rel_err \<le> 1 / 1000" by (rule rel_err_pos)+
  have s: "rel_err * rel_err \<le> rel_err * 1" using e by (intro mult_left_mono) simp_all
  have n: "0 \<le> rel_err * rel_err" by simp
  have sq1: "(1 + rel_err)\<^sup>2 = 1 + 2 * rel_err + rel_err * rel_err"
    by (simp add: power2_eq_square algebra_simps)
  have sq2: "(1 - rel_err)\<^sup>2 = 1 - 2 * rel_err + rel_err * rel_err"
    by (simp add: power2_eq_square algebra_simps)
  show "(1 + rel_err)\<^sup>2 \<le> 1 + 3 * rel_err" unfolding sq1 using s by linarith
  then show "(1 + rel_err)\<^sup>2 \<le> 1003 / 1000" using e by linarith
  show "1 - 3 * rel_err \<le> (1 - rel_err)\<^sup>2" unfolding sq2 using n e by linarith
  then show "997 / 1000 \<le> (1 - rel_err)\<^sup>2" using e by linarith
qed



lemma upgradeCost_in_range:
  fixes L :: nat
  assumes "baseCost (UPGRADE_DEFS key) * costMult (UPGRADE_DEFS key) ^ L * (1 + rel_err)\<^sup>2 \<le> DBL_MAX"
  shows "\<exists>c. upgradeCost F key (real L) = Num c"
proof -
  let ?b = "baseCost (UPGRADE_DEFS key)" and ?m = "costMult (UPGRADE_DEFS key)"
  note r = table_ranges[of key]
  have e: "0 < rel_err" by (rule rel_err_pos)
  have mpos: "0 < ?m" using r(1) by simp
  have pw: "?m powr (real L) = ?m ^ L" using mpos by (simp add: powr_realpow)
  have mL: "1 \<le> ?m ^ L" using r(1) by (intro one_le_power) simp
  have "1 * (?m ^ L * (1 + rel_err)) \<le> ?b * (?m ^ L * (1 + rel_err))"
    using r(3) mL e by (intro mult_right_mono) simp_all
  also have "\<dots> * 1 \<le> ?b * (?m ^ L * (1 + rel_err)) * (1 + rel_err)"
    using r(3) mL e by (intro mult_left_mono) simp_all
  finally have "?m ^ L * (1 + rel_err) \<le> ?b * ?m ^ L * (1 + rel_err)\<^sup>2"
    by (simp add: power2_eq_square algebra_simps)
  then have "?m ^ L * (1 + rel_err) \<le> DBL_MAX" using assms by linarith
  then have "?m powr (real L) * (1 + rel_err) \<le> DBL_MAX" unfolding pw .
  then obtain p where p: "Math_pow F ?m (real L) = Num p"
    using Math_pow_finite[OF r(1) r(2), of "real L" F] by auto
  have pb: "?m ^ L * (1 - rel_err) \<le> p" "p \<le> ?m ^ L * (1 + rel_err)"
    using Math_pow_bounds[OF r(1) r(2) _ p] by (simp_all add: pw)
  have p1: "1 \<le> p"
  proof (cases L)
    case 0
    then show ?thesis using p by (simp add: Math_pow_zero)
  next
    case (Suc n)
    have "1 \<le> ?m ^ n" using r(1) by (intro one_le_power) simp
    then have "115 / 100 * 1 \<le> ?m * ?m ^ n" using r(1) by (intro mult_mono) simp_all
    then have "115 / 100 \<le> ?m ^ L" using Suc by simp
    moreover have "999 / 1000 \<le> 1 - rel_err" using rel_err_pos(2) by simp
    ultimately have "115 / 100 * (999 / 1000) \<le> ?m ^ L * (1 - rel_err)"
      by (intro mult_mono) simp_all
    then show ?thesis using pb(1) by simp
  qed
  have b1: "1 \<le> ?b" using r(3) by simp
  have "?b * p * (1 + rel_err) \<le> ?b * (?m ^ L * (1 + rel_err)) * (1 + rel_err)"
    using pb(2) b1 e by (intro mult_right_mono mult_left_mono) simp_all
  then have "?b * p * (1 + rel_err) \<le> DBL_MAX"
    using assms by (simp add: power2_eq_square algebra_simps)
  then obtain q where "double_times F ?b p = Num q"
    using double_times_finite[OF b1 p1, of F] by auto
  then show ?thesis using p by (simp add: upgradeCost_def)
qed



lemma upgradeCost_hammer_1: "upgradeCost F Hammer 1 = Num 11"
proof -
  have r: "baseCost (UPGRADE_DEFS Hammer) * costMult (UPGRADE_DEFS Hammer) ^ 1 = 115 / 10" by simp
  have "(115 / 10) * (1003 / 1000) \<le> (2::real) ^ 1023"
  proof -
    have "(115 / 10) * (1003 / 1000) \<le> (2::real) ^ 4" by simp
    also have "\<dots> \<le> 2 ^ 1023" by (rule power_increasing) simp_all
    finally show ?thesis .
  qed
  moreover have "(115 / 10) * (1 + rel_err)\<^sup>2 \<le> (115 / 10) * (1003 / 1000)"
    using err_squares(3) by (intro mult_left_mono) simp_all
  ultimately have "baseCost (UPGRADE_DEFS Hammer) * costMult (UPGRADE_DEFS Hammer) ^ 1
                     * (1 + rel_err)\<^sup>2 \<le> DBL_MAX"
    using DBL_MAX_ge unfolding r by linarith
  then obtain c where c: "upgradeCost F Hammer (real 1) = Num c"
    using upgradeCost_in_range[of Hammer 1 F] by auto
  obtain q where q: "c = of_int \<lfloor>q\<rfloor>" "(115 / 10) * (1 - rel_err)\<^sup>2 \<le> q"
      "q \<le> (115 / 10) * (1 + rel_err)\<^sup>2"
    using upgradeCost_Num[OF c] unfolding r by blast
  have "(115 / 10) * (997 / 1000) \<le> (115 / 10) * (1 - rel_err)\<^sup>2"
    using err_squares(1) by (intro mult_left_mono) simp_all
  then have lo: "11 \<le> q" using q(2) by simp
  have "(115 / 10) * (1 + rel_err)\<^sup>2 \<le> (115 / 10) * (1003 / 1000)"
    using err_squares(3) by (intro mult_left_mono) simp_all
  then have hi: "q < 12" using q(3) by simp
  have "\<lfloor>q\<rfloor> = 11" using lo hi by (intro floor_unique) simp_all
  then show ?thesis using c q(1) by simp
qed






subsection \<open>Derived stats\<close>

text \<open>
  Claim C9. The derived stats are a function of the save alone: with
  \<open>hammerBonus = level hammer * 1\<close>, \<open>anvilBonus = level anvil * 0.5\<close>,
  \<open>forgeMult = 1 + level forge * 0.1\<close>, \<open>essenceMult = 1 + essence * 0.02\<close> and
  \<open>globalMult = forgeMult * essenceMult\<close>, the click income is
  \<open>(goldPerClickBase + hammerBonus) * globalMult\<close>, the income per second is
  \<open>(goldPerSecondBase + anvilBonus) * globalMult\<close>, and the automatic clicks per second are
  the level of the apprentice. For the default save the click income is 1 and the income per
  second is 0.
\<close>

theorem derived_stats_formulas:
  "(let hammerBonus = upgrades sv Hammer * 1;
        anvilBonus = upgrades sv Anvil * (5 / 10);
        forgeMult = 1 + upgrades sv Forge * (1 / 10);
        essenceMult = 1 + essence (prestige sv) * (2 / 100);
        gm = forgeMult * essenceMult
    in computeDerived sv =
         \<lparr> click = (goldPerClickBase sv + hammerBonus) * gm,
           gps = (goldPerSecondBase sv + anvilBonus) * gm,
           globalMult = gm,
           autoClicksPerSec = upgrades sv Apprentice \<rparr>)
   \<and> click (computeDerived (defaultSave t0)) = 1
   \<and> gps (computeDerived (defaultSave t0)) = 0"
  by (simp add: computeDerived_def defaultSave_def Let_def)

subsection \<open>Offline progress\<close>

lemma derived_nonneg:
  assumes "nonneg_rates sv"
  shows "0 \<le> click (computeDerived sv)" "0 \<le> gps (computeDerived sv)"
    "0 \<le> autoClicksPerSec (computeDerived sv)"
  using assms by (simp_all add: nonneg_rates_def computeDerived_def Let_def)

lemma income_nonneg:
  assumes "nonneg_rates sv"
  shows "0 \<le> gps (computeDerived sv) + autoClicksPerSec (computeDerived sv) * click (computeDerived sv)"
  using derived_nonneg[OF assms] by simp

lemma clamp_bounds: "lo \<le> hi \<Longrightarrow> lo \<le> clamp n lo hi \<and> clamp n lo hi \<le> hi"
  by (simp add: clamp_def)

text \<open>
  Claim C1, as the code has it. The component mounts with the loaded save and one run of the
  offline effect on it. The effect computes
  \<open>deltaSec = clamp ((now - lastTick) / 1000) 0 28800\<close>; if \<open>deltaSec > 1\<close> and the income per
  second or the automatic clicks per second are positive, it adds
  \<open>deltaSec * (gps + autoClicksPerSec * click)\<close> to the gold and sets \<open>lastTick\<close> to \<open>now\<close>, and
  otherwise it changes nothing. For every save the credit is at most
  \<open>28800 * (gps + autoClicksPerSec * click)\<close> in absolute value. For every save whose income
  of one second \<open>gps + autoClicksPerSec * click\<close> is not negative, as it is when the levels,
  the essence and the base rates are not negative, the credit is at most
  \<open>28800 * (gps + autoClicksPerSec * click)\<close>, whatever the age of \<open>lastTick\<close>.
\<close>

theorem offline_progress_capped:
  "(let d = computeDerived sv;
        deltaSec = clamp ((now - lastTick sv) / 1000) 0 28800;
        rate = gps d + autoClicksPerSec d * click d
    in 0 \<le> deltaSec \<and> deltaSec \<le> 28800
       \<and> applyOffline sv now s =
           (if deltaSec > 1 \<and> (gps d > 0 \<or> autoClicksPerSec d > 0)
            then s\<lparr> gold := gold s + deltaSec * rate, lastTick := now \<rparr>
            else s)
       \<and> \<bar>gold (applyOffline sv now s) - gold s\<bar> \<le> 28800 * \<bar>rate\<bar>
       \<and> (0 \<le> rate \<longrightarrow> gold (applyOffline sv now s) - gold s \<le> 28800 * rate)
       \<and> (nonneg_rates sv \<longrightarrow> 0 \<le> rate))
   \<and> mount P t0 getItem now'
         = applyOffline (loadSave P t0 getItem) now' (loadSave P t0 getItem)"
proof -
  define d where "d = computeDerived sv"
  define deltaSec where "deltaSec = clamp ((now - lastTick sv) / 1000) 0 28800"
  define rate where "rate = gps d + autoClicksPerSec d * click d"
  have b: "0 \<le> deltaSec" "deltaSec \<le> 28800"
    using clamp_bounds[of 0 28800 "(now - lastTick sv) / 1000"] by (simp_all add: deltaSec_def)
  have eq: "applyOffline sv now s =
              (if deltaSec > 1 \<and> (gps d > 0 \<or> autoClicksPerSec d > 0)
               then s\<lparr> gold := gold s + deltaSec * rate, lastTick := now \<rparr> else s)"
    by (auto simp add: applyOffline_def Let_def d_def deltaSec_def rate_def)
  have cap: "gold (applyOffline sv now s) - gold s \<le> 28800 * rate" if i: "0 \<le> rate"
  proof -
    have "deltaSec * rate \<le> 28800 * rate" using b i by (intro mult_right_mono)
    then show ?thesis using i unfolding eq by simp
  qed
  have sign: "0 \<le> rate" if r: "nonneg_rates sv"
    unfolding rate_def d_def by (rule income_nonneg[OF r])
  have "deltaSec * \<bar>rate\<bar> \<le> 28800 * \<bar>rate\<bar>" using b by (intro mult_right_mono) simp_all
  then have mag: "\<bar>gold (applyOffline sv now s) - gold s\<bar> \<le> 28800 * \<bar>rate\<bar>"
    using b unfolding eq by (simp add: abs_mult)
  have m: "mount P t0 getItem now'
             = applyOffline (loadSave P t0 getItem) now' (loadSave P t0 getItem)"
    by (simp add: mount_def Let_def)
  show ?thesis
    using b eq cap mag sign m
    unfolding Let_def d_def[symmetric] deltaSec_def[symmetric] rate_def[symmetric]
    by blast
qed

theorem offline_progress_capped_witness:
  "nonneg_rates ((defaultSave 0)\<lparr> upgrades := (\<lambda>k. 0)(Anvil := 10), lastTick := 5000 \<rparr>)
   \<and> gps (computeDerived ((defaultSave 0)\<lparr> upgrades := (\<lambda>k. 0)(Anvil := 10), lastTick := 5000 \<rparr>)) = 5
   \<and> gold (applyOffline ((defaultSave 0)\<lparr> upgrades := (\<lambda>k. 0)(Anvil := 10), lastTick := 5000 \<rparr>) 15000
              ((defaultSave 0)\<lparr> upgrades := (\<lambda>k. 0)(Anvil := 10), lastTick := 5000 \<rparr>)) = 50
   \<and> gold (applyOffline ((defaultSave 0)\<lparr> upgrades := (\<lambda>k. 0)(Anvil := 10), lastTick := 5000 \<rparr>) 100005000
              ((defaultSave 0)\<lparr> upgrades := (\<lambda>k. 0)(Anvil := 10), lastTick := 5000 \<rparr>)) = 144000"
proof -
  let ?s = "(defaultSave 0)\<lparr> upgrades := (\<lambda>k. 0)(Anvil := 10), lastTick := 5000 \<rparr>"
  have h: "nonneg_rates ?s" by (simp add: nonneg_rates_def defaultSave_def)
  have g: "gps (computeDerived ?s) = 5" "autoClicksPerSec (computeDerived ?s) = 0"
    "click (computeDerived ?s) = 1"
    by (simp_all add: computeDerived_def defaultSave_def Let_def)
  show ?thesis
    using h g offline_progress_capped[where sv = ?s and now = 15000 and s = ?s]
      offline_progress_capped[where sv = ?s and now = 100005000 and s = ?s]
    by (simp add: Let_def clamp_def defaultSave_def)
qed

text \<open>
  Claim C1 as stated fails for a save with a negative income of one second, which the
  loader accepts: with forge level -20 and apprentice level 1, stored 10 seconds ago, the
  click income is -1, the income of one second is -1, and the effect credits -10, which
  exceeds \<open>28800 * (-1)\<close>.
\<close>

theorem offline_negative_rate_counterexample:
  "click (computeDerived ((defaultSave 0)\<lparr> upgrades := (\<lambda>k. 0)(Forge := - 20, Apprentice := 1),
                                           lastTick := 0 \<rparr>)) = - 1
   \<and> gps (computeDerived ((defaultSave 0)\<lparr> upgrades := (\<lambda>k. 0)(Forge := - 20, Apprentice := 1),
                                           lastTick := 0 \<rparr>)) = 0
   \<and> autoClicksPerSec (computeDerived ((defaultSave 0)\<lparr> upgrades := (\<lambda>k. 0)(Forge := - 20, Apprentice := 1),
                                           lastTick := 0 \<rparr>)) = 1
   \<and> gold (applyOffline ((defaultSave 0)\<lparr> upgrades := (\<lambda>k. 0)(Forge := - 20, Apprentice := 1),
                                           lastTick := 0 \<rparr>) 10000
              ((defaultSave 0)\<lparr> upgrades := (\<lambda>k. 0)(Forge := - 20, Apprentice := 1),
                                lastTick := 0 \<rparr>))
       - gold ((defaultSave 0)\<lparr> upgrades := (\<lambda>k. 0)(Forge := - 20, Apprentice := 1),
                                 lastTick := 0 \<rparr>) = - 10
   \<and> \<not> (- 10 \<le> 28800 * (0 + 1 * (- 1 :: real)))"
  by (simp add: applyOffline_def computeDerived_def defaultSave_def clamp_def Let_def)

subsection \<open>Purchases\<close>

text \<open>
  What a purchase does, for every rendered save and every state: the cost and the guard are
  those of the rendered save, the charge and the level are those of the state.
\<close>

lemma buyUpgrade_two_state:
  "(upgradeCost F key (upgrades sv key) = Infinity \<longrightarrow> buyUpgrade F sv key s = s)
   \<and> (\<forall>c. upgradeCost F key (upgrades sv key) = Num c \<longrightarrow>
          (gold sv < c \<longrightarrow> buyUpgrade F sv key s = s)
          \<and> (c \<le> gold sv \<longrightarrow>
               buyUpgrade F sv key s
                 = s\<lparr> gold := gold s - c, upgrades := (upgrades s)(key := upgrades s key + 1) \<rparr>))"
  by (auto simp add: buyUpgrade_def)

text \<open>
  A purchase dispatched from a render of the state it updates is guarded and atomic: with
  less gold than the cost the state is unchanged; otherwise the gold decreases by exactly the
  cost and stays at least 0, the level increases by exactly 1 (a whole level stays whole), and
  the other levels are unchanged.
\<close>

lemma purchase_on_current_render:
  "(upgradeCost F key (upgrades s key) = Infinity \<longrightarrow> buyUpgrade F s key s = s)
   \<and> (\<forall>c. upgradeCost F key (upgrades s key) = Num c \<longrightarrow>
          (let s' = buyUpgrade F s key s
           in (gold s < c \<longrightarrow> s' = s)
              \<and> (c \<le> gold s \<longrightarrow>
                   gold s' = gold s - c
                   \<and> 0 \<le> gold s'
                   \<and> upgrades s' key = upgrades s key + 1
                   \<and> (\<forall>k. k \<noteq> key \<longrightarrow> upgrades s' k = upgrades s k)
                   \<and> (upgrades s key \<in> \<nat> \<longrightarrow> upgrades s' key \<in> \<nat>))))"
  by (auto simp add: buyUpgrade_def Let_def)

text \<open>
  Claim C3 fails on the code. The guard of \<^verbatim>\<open>buyUpgrade\<close> reads the gold and the level of
  the rendered save, while the updater charges the state it receives. Two purchases of the
  hammer dispatched from one render of a save with 12 gold: the first leaves 2 gold and
  level 1; the second finds 2 gold, less than the cost 11 of the next level, and still
  charges 10 and raises the level to 2, leaving -8 gold.
\<close>

theorem purchase_stale_guard:
  "(let sv = (defaultSave 0)\<lparr> gold := 12 \<rparr>;
        s1 = buyUpgrade F sv Hammer sv;
        s2 = buyUpgrade F sv Hammer s1
    in gold s1 = 2 \<and> upgrades s1 Hammer = 1
       \<and> upgradeCost F Hammer (upgrades s1 Hammer) = Num 11
       \<and> gold s2 = - 8 \<and> upgrades s2 Hammer = 2)"
  using upgradeCost_level0[of F Hammer] upgradeCost_hammer_1[of F]
  by (simp add: buyUpgrade_def Let_def defaultSave_def)

subsection \<open>Prestige\<close>

lemma floor_sqrt_10: "\<lfloor>sqrt 10\<rfloor> = 3"
proof (rule floor_unique)
  show "of_int 3 \<le> sqrt 10" by (rule real_le_rsqrt) simp
  show "sqrt 10 < of_int 3 + 1" by (rule real_less_lsqrt) simp_all
qed

lemma essenceGain_50000: "gold sv = 50000 \<Longrightarrow> essenceGain sv = 3"
  by (simp add: essenceGain_def floor_sqrt_10)

lemma essenceGain_ge_3:
  assumes "canPrestige sv"
  shows "3 \<le> essenceGain sv"
proof -
  have "10 \<le> gold sv / 5000" using assms by (simp add: canPrestige_def)
  then have "sqrt 10 \<le> sqrt (gold sv / 5000)" by simp
  then have "\<lfloor>sqrt 10\<rfloor> \<le> \<lfloor>sqrt (gold sv / 5000)\<rfloor>" by (rule floor_mono)
  then show ?thesis by (simp add: essenceGain_def floor_sqrt_10)
qed

text \<open>
  What prestige does, for every rendered save and every state: the guard and the gain are
  those of the rendered save, the counters are those of the state.
\<close>

lemma doPrestige_two_state:
  "(canPrestige sv \<and> 0 < essenceGain sv \<longrightarrow>
      doPrestige t0 sv now s
        = (defaultSave t0)
            \<lparr> prestige := \<lparr> count = count (prestige s) + 1,
                            essence = essence (prestige s) + essenceGain sv \<rparr>,
              lastTick := now \<rparr>)
   \<and> (\<not> (canPrestige sv \<and> 0 < essenceGain sv) \<longrightarrow> doPrestige t0 sv now s = s)"
  by (auto simp add: doPrestige_def)

text \<open>
  Prestige dispatched from a render of the state it updates: it is possible when
  \<open>gold \<ge> 50000\<close> and \<open>essenceGain = floor (sqrt (gold / 5000))\<close> is positive; it then replaces
  the save by the defaults, except that the prestige count increases by 1, the essence by
  \<open>essenceGain\<close>, and \<open>lastTick\<close> is \<open>now\<close>; otherwise the state is unchanged. With
  \<open>gold = 50000\<close> the gain is 3, and afterwards the gold is 0 and every upgrade level is 0.
\<close>

lemma prestige_on_current_render:
  "(let s' = doPrestige t0 s now s
    in (canPrestige s \<longleftrightarrow> 50000 \<le> gold s)
       \<and> essenceGain s = of_int \<lfloor>sqrt (gold s / 5000)\<rfloor>
       \<and> (canPrestige s \<and> 0 < essenceGain s \<longrightarrow>
            s' = (defaultSave t0)
                   \<lparr> prestige := \<lparr> count = count (prestige s) + 1,
                                   essence = essence (prestige s) + essenceGain s \<rparr>,
                     lastTick := now \<rparr>)
       \<and> (\<not> (canPrestige s \<and> 0 < essenceGain s) \<longrightarrow> s' = s)
       \<and> (gold s = 50000 \<longrightarrow>
            essenceGain s = 3 \<and> gold s' = 0 \<and> (\<forall>k. upgrades s' k = 0)
            \<and> essence (prestige s') = essence (prestige s) + 3
            \<and> count (prestige s') = count (prestige s) + 1
            \<and> lastTick s' = now))"
proof -
  define s' where "s' = doPrestige t0 s now s"
  have c1: "canPrestige s \<longleftrightarrow> 50000 \<le> gold s" by (simp add: canPrestige_def)
  have c2: "essenceGain s = of_int \<lfloor>sqrt (gold s / 5000)\<rfloor>" by (simp add: essenceGain_def)
  have c3: "canPrestige s \<and> 0 < essenceGain s \<longrightarrow>
            s' = (defaultSave t0)
                   \<lparr> prestige := \<lparr> count = count (prestige s) + 1,
                                   essence = essence (prestige s) + essenceGain s \<rparr>,
                     lastTick := now \<rparr>"
    by (simp add: s'_def doPrestige_def)
  have c4: "\<not> (canPrestige s \<and> 0 < essenceGain s) \<longrightarrow> s' = s"
    by (auto simp add: s'_def doPrestige_def)
  have c5: "gold s = 50000 \<longrightarrow>
            essenceGain s = 3 \<and> gold s' = 0 \<and> (\<forall>k. upgrades s' k = 0)
            \<and> essence (prestige s') = essence (prestige s) + 3
            \<and> count (prestige s') = count (prestige s) + 1
            \<and> lastTick s' = now"
    by (simp add: s'_def doPrestige_def canPrestige_def essenceGain_50000 defaultSave_def)
  show ?thesis
    unfolding Let_def s'_def[symmetric] using c1 c2 c3 c4 c5 by blast
qed

text \<open>
  Claim C6 fails on the code. The guard and the gain of \<^verbatim>\<open>doPrestige\<close> are constants of
  the render, while the updater reads the counters of the state it receives. Two dispatches
  from one render of a save with 50000 gold: the first resets the save to 0 gold with count 1
  and essence 3; the second finds 0 gold, for which prestige is not possible, and still
  raises the count to 2 and the essence to 6.
\<close>

theorem prestige_stale_guard:
  "(let sv = (defaultSave 0)\<lparr> gold := 50000 \<rparr>;
        s1 = doPrestige 0 sv 1 sv;
        s2 = doPrestige 0 sv 2 s1
    in gold s1 = 0 \<and> \<not> canPrestige s1
       \<and> prestige s1 = \<lparr> count = 1, essence = 3 \<rparr>
       \<and> prestige s2 = \<lparr> count = 2, essence = 6 \<rparr>
       \<and> gold s2 = 0)"
proof -
  have e: "essenceGain ((defaultSave 0)\<lparr> gold := 50000 \<rparr>) = 3"
    by (rule essenceGain_50000) simp
  show ?thesis
    using e by (simp add: doPrestige_def canPrestige_def Let_def defaultSave_def)
qed

theorem prestige_stale_guard_witness:
  "prestige (doPrestige 0 ((defaultSave 0)\<lparr> gold := 50000 \<rparr>) 2
       (doPrestige 0 ((defaultSave 0)\<lparr> gold := 50000 \<rparr>) 1 ((defaultSave 0)\<lparr> gold := 50000 \<rparr>)))
     = \<lparr> count = 2, essence = 6 \<rparr>
   \<and> \<not> canPrestige
         (doPrestige 0 ((defaultSave 0)\<lparr> gold := 50000 \<rparr>) 1 ((defaultSave 0)\<lparr> gold := 50000 \<rparr>))"
  using prestige_stale_guard by (simp add: Let_def)

subsection \<open>The game loop\<close>

lemma frame_dt_le: "frame_dt t lf \<le> 1 / 4"
  by (simp add: frame_dt_def)

lemma whole_seconds_step: "1 \<le> c \<Longrightarrow> whole_seconds c = Suc (whole_seconds (c - 1))"
proof -
  assume c: "1 \<le> c"
  then have f: "1 \<le> \<lfloor>c\<rfloor>" by simp
  show ?thesis
  proof (cases "1 \<le> c - 1")
    case True
    then have "1 \<le> \<lfloor>c - 1\<rfloor>" by simp
    then show ?thesis using c True f by (simp add: whole_seconds_def nat_diff_distrib')
  next
    case False
    then have "c < 2" by simp
    with c have "\<lfloor>c\<rfloor> = 1" by (intro floor_unique) simp_all
    then show ?thesis using c False by (simp add: whole_seconds_def)
  qed
qed

lemma whole_seconds_rest: "c - real (whole_seconds c) < 1"
proof (cases "1 \<le> c")
  case True
  then have "0 \<le> \<lfloor>c\<rfloor>" by simp
  then have "real (nat \<lfloor>c\<rfloor>) = of_int \<lfloor>c\<rfloor>" by simp
  moreover have "c - of_int \<lfloor>c\<rfloor> < 1" by linarith
  ultimately show ?thesis using True by (simp add: whole_seconds_def)
next
  case False
  then show ?thesis by (simp add: whole_seconds_def)
qed

lemma whole_seconds_le_1: "c < 2 \<Longrightarrow> whole_seconds c \<le> 1"
proof -
  assume "c < 2"
  then have "\<lfloor>c\<rfloor> < 2" by (simp add: floor_less_iff)
  then have "nat \<lfloor>c\<rfloor> \<le> 1" by linarith
  then show ?thesis by (simp add: whole_seconds_def)
qed

lemma tick_gold: "gold (tick sv now s) = gold s + income sv"
  by (simp add: tick_def income_def Let_def)

lemma loop_while_result:
  "fst (loop_while sv now (c, s)) = c - real (whole_seconds c)
   \<and> gold (snd (loop_while sv now (c, s))) = gold s + real (whole_seconds c) * income sv"
proof (induction sv now "(c, s)" arbitrary: c s rule: loop_while.induct)
  case (1 sv now c s)
  show ?case
  proof (cases "1 \<le> c")
    case True
    from "1"[OF True] whole_seconds_step[OF True] True show ?thesis
      by (simp add: loop_while.simps[of sv now c s] tick_gold algebra_simps)
  next
    case False
    then show ?thesis by (simp add: loop_while.simps[of sv now c s] whole_seconds_def)
  qed
qed

lemma loop_while_idle: "c < 1 \<Longrightarrow> loop_while sv now (c, s) = (c, s)"
  by (simp add: loop_while.simps[of sv now c s])

lemma loop_idle:
  "carry (fst st) + frame_dt t (lastFrame (fst st)) < 1 \<Longrightarrow>
   loop sv now t st = (\<lparr> lastFrame = t, carry = carry (fst st) + frame_dt t (lastFrame (fst st)) \<rparr>, snd st)"
  by (simp add: loop_def Let_def loop_while_idle)

text \<open>
  Claim C2. A frame with timestamp \<open>t\<close> adds \<open>dt = min 0.25 ((t - lastFrameTime) / 1000)\<close>
  to the carry, so at most 0.25 seconds of simulated time per frame, and applies one second
  of income for every whole second in the carry, which leaves a carry below 1; from a carry
  below 1 that is at most one second of income in a frame. A fresh loop (carry 0, last frame time not
  negative) that is fed the timestamps 0, 1500 and 1600 has accumulated at most 0.5 seconds
  after the three frames, and has applied no income.
\<close>

theorem loop_accumulator_clamped:
  "frame_dt t lf = min (1 / 4) ((t - lf) / 1000)
   \<and> frame_dt t lf \<le> 1 / 4
   \<and> (let c = carry (fst st) + frame_dt t (lastFrame (fst st));
           st' = loop sv now t st
       in lastFrame (fst st') = t
          \<and> carry (fst st') = c - real (whole_seconds c)
          \<and> carry (fst st') < 1
          \<and> gold (snd st') = gold (snd st) + real (whole_seconds c) * income sv
          \<and> (carry (fst st) < 1 \<longrightarrow> whole_seconds c \<le> 1))
   \<and> (0 \<le> lastFrame (fst st) \<and> carry (fst st) = 0 \<longrightarrow>
        (let st3 = loop sv now3 1600 (loop sv now2 1500 (loop sv now1 0 st))
         in carry (fst st3)
              = frame_dt 0 (lastFrame (fst st)) + frame_dt 1500 0 + frame_dt 1600 1500
            \<and> carry (fst st3) \<le> 1 / 2
            \<and> snd st3 = snd st))"
proof -
  have a: "frame_dt t lf = min (1 / 4) ((t - lf) / 1000)" by (simp add: frame_dt_def)
  have b: "let c = carry (fst st) + frame_dt t (lastFrame (fst st));
               st' = loop sv now t st
           in lastFrame (fst st') = t
              \<and> carry (fst st') = c - real (whole_seconds c)
              \<and> carry (fst st') < 1
              \<and> gold (snd st') = gold (snd st) + real (whole_seconds c) * income sv
              \<and> (carry (fst st) < 1 \<longrightarrow> whole_seconds c \<le> 1)"
  proof -
    have "carry (fst st) < 1 \<Longrightarrow> carry (fst st) + frame_dt t (lastFrame (fst st)) < 2"
      using frame_dt_le[of t "lastFrame (fst st)"] by simp
    then show ?thesis
      using loop_while_result[of sv now "carry (fst st) + frame_dt t (lastFrame (fst st))" "snd st"]
        whole_seconds_rest[of "carry (fst st) + frame_dt t (lastFrame (fst st))"]
        whole_seconds_le_1[of "carry (fst st) + frame_dt t (lastFrame (fst st))"]
      by (simp add: loop_def Let_def case_prod_beta)
  qed
  have c: "let st3 = loop sv now3 1600 (loop sv now2 1500 (loop sv now1 0 st))
         in carry (fst st3)
              = frame_dt 0 (lastFrame (fst st)) + frame_dt 1500 0 + frame_dt 1600 1500
            \<and> carry (fst st3) \<le> 1 / 2
            \<and> snd st3 = snd st"
    if h: "0 \<le> lastFrame (fst st)" "carry (fst st) = 0"
  proof -
    define d1 where "d1 = frame_dt 0 (lastFrame (fst st))"
    have d1: "d1 \<le> 0" using h(1) by (simp add: d1_def frame_dt_def min_def)
    have s1: "loop sv now1 0 st = (\<lparr> lastFrame = 0, carry = d1 \<rparr>, snd st)"
      using loop_idle[of st 0 sv now1] d1 h(2) by (simp add: d1_def)
    have e2: "frame_dt 1500 0 = 1 / 4" by (simp add: frame_dt_def)
    have s2: "loop sv now2 1500 (loop sv now1 0 st)
                = (\<lparr> lastFrame = 1500, carry = d1 + 1 / 4 \<rparr>, snd st)"
      unfolding s1 using loop_idle[of "(\<lparr> lastFrame = 0, carry = d1 \<rparr>, snd st)" 1500 sv now2] d1 e2
      by simp
    have e3: "frame_dt 1600 1500 = 1 / 10" by (simp add: frame_dt_def)
    have s3: "loop sv now3 1600 (loop sv now2 1500 (loop sv now1 0 st))
                = (\<lparr> lastFrame = 1600, carry = d1 + 1 / 4 + 1 / 10 \<rparr>, snd st)"
      unfolding s2
      using loop_idle[of "(\<lparr> lastFrame = 1500, carry = d1 + 1 / 4 \<rparr>, snd st)" 1600 sv now3] d1 e3
      by simp
    show ?thesis unfolding s3 Let_def using d1 e2 e3 by (simp add: d1_def)
  qed
  show ?thesis using a frame_dt_le b c by blast
qed

theorem loop_accumulator_clamped_witness:
  "0 \<le> lastFrame (fst (\<lparr> lastFrame = 0, carry = 0 \<rparr>, defaultSave 0))
   \<and> carry (fst (\<lparr> lastFrame = 0, carry = 0 \<rparr>, defaultSave 0)) = 0
   \<and> carry (fst (loop (defaultSave 0) 3 1600 (loop (defaultSave 0) 2 1500
          (loop (defaultSave 0) 1 0 (\<lparr> lastFrame = 0, carry = 0 \<rparr>, defaultSave 0))))) = 7 / 20
   \<and> snd (loop (defaultSave 0) 3 1600 (loop (defaultSave 0) 2 1500
          (loop (defaultSave 0) 1 0 (\<lparr> lastFrame = 0, carry = 0 \<rparr>, defaultSave 0)))) = defaultSave 0"
  using loop_accumulator_clamped[of 0 0 "(\<lparr> lastFrame = 0, carry = 0 \<rparr>, defaultSave 0)"
      "defaultSave 0" 1 3 2 1]
  by (simp add: Let_def frame_dt_def)

subsection \<open>Gold is never negative\<close>

lemma save_ok_default: "save_ok (defaultSave t0)"
  by (simp add: save_ok_def nonneg_rates_def defaultSave_def)

lemma save_ok_doClick: "save_ok s \<Longrightarrow> nonneg_rates sv \<Longrightarrow> save_ok (doClick sv s)"
  using derived_nonneg(1)[of sv] by (simp add: save_ok_def nonneg_rates_def doClick_def)

lemma save_ok_buyUpgrade: "save_ok s \<Longrightarrow> save_ok (buyUpgrade F s key s)"
  by (cases key; cases "upgradeCost F key (upgrades s key)")
     (auto simp add: save_ok_def nonneg_rates_def buyUpgrade_def)

lemma save_ok_tick: "save_ok s \<Longrightarrow> nonneg_rates sv \<Longrightarrow> save_ok (tick sv now s)"
  using income_nonneg[of sv] by (simp add: save_ok_def nonneg_rates_def tick_def Let_def)

lemma save_ok_loop_while:
  "nonneg_rates sv \<Longrightarrow> save_ok s \<Longrightarrow> save_ok (snd (loop_while sv now (c, s)))"
proof (induction sv now "(c, s)" arbitrary: c s rule: loop_while.induct)
  case (1 sv now c s)
  show ?case
  proof (cases "1 \<le> c")
    case True
    have "save_ok (tick sv now s)" using "1.prems" by (simp add: save_ok_tick)
    from "1.hyps"[OF True "1.prems"(1) this] True show ?thesis
      by (simp add: loop_while.simps[of sv now c s])
  next
    case False
    then show ?thesis using "1.prems" by (simp add: loop_while.simps[of sv now c s])
  qed
qed

lemma save_ok_loop: "nonneg_rates sv \<Longrightarrow> save_ok (snd st) \<Longrightarrow> save_ok (snd (loop sv now t st))"
  using save_ok_loop_while[of sv "snd st" now "carry (fst st) + frame_dt t (lastFrame (fst st))"]
  by (simp add: loop_def Let_def case_prod_beta)

lemma save_ok_applyOffline: "save_ok s \<Longrightarrow> nonneg_rates sv \<Longrightarrow> save_ok (applyOffline sv now s)"
proof -
  assume s: "save_ok s" and r: "nonneg_rates sv"
  have "0 \<le> clamp ((now - lastTick sv) / 1000) 0 (60 * 60 * 8)" by (simp add: clamp_def)
  then have "0 \<le> clamp ((now - lastTick sv) / 1000) 0 (60 * 60 * 8) * income sv"
    using income_nonneg[OF r] by (simp add: income_def Let_def)
  then show ?thesis
    using s by (auto simp add: applyOffline_def Let_def save_ok_def nonneg_rates_def income_def)
qed

lemma save_ok_doPrestige: "save_ok s \<Longrightarrow> save_ok (doPrestige t0 sv now s)"
  by (auto simp add: doPrestige_def save_ok_def nonneg_rates_def defaultSave_def)

lemma save_ok_resetAll: "save_ok s \<Longrightarrow> save_ok (resetAll t0 confirmed now s)"
  by (auto simp add: resetAll_def save_ok_def nonneg_rates_def defaultSave_def)

lemma game_step_save_ok:
  "game_step F t0 c c' \<Longrightarrow> save_ok (fst c) \<and> save_ok (snd c)
   \<Longrightarrow> save_ok (fst c') \<and> save_ok (snd c')"
proof (induction rule: game_step.induct)
  case (render sv s)
  then show ?case by simp
next
  case (click sv s)
  then show ?case using save_ok_doClick[of s sv] by (simp add: save_ok_def)
next
  case (purchase s key)
  then show ?case using save_ok_buyUpgrade[of s F key] by simp
next
  case (frame sv s now t l)
  then show ?case using save_ok_loop[of sv "(l, s)" now t] by (simp add: save_ok_def)
next
  case (offline sv s now)
  then show ?case using save_ok_applyOffline[of s sv now] by (simp add: save_ok_def)
next
  case (prestige sv s now)
  then show ?case using save_ok_doPrestige[of s t0 sv now] by simp
next
  case (reset sv s confirmed now)
  then show ?case using save_ok_resetAll[of s t0 confirmed now] by simp
next
  case (import_rejected sv s e)
  then show ?case by (simp add: importTry_def)
next
  case (import_accepted obj sv s)
  then show ?case by (simp add: importTry_def)
qed

text \<open>
  Claim C4, as the code has it. Start from a state that satisfies the invariant (gold not
  negative, levels, essence and base rates not negative), rendered as it is. Every run of
  renders, of clicks, frames of the game loop, offline catch-up, prestige and hard resets
  dispatched from the latest render or an earlier one, of purchases dispatched from a render
  of the state they update, and of imports, ends in a state with gold at least 0, provided
  each imported object, merged over the defaults, satisfies the invariant itself. A purchase
  dispatched from an older render is the defect of claim C3 and is not part of these runs.
\<close>

theorem gold_nonneg_along_runs:
  assumes "save_ok s0" and "(game_step F t0)\<^sup>*\<^sup>* (s0, s0) (sv, s)"
  shows "0 \<le> gold s \<and> save_ok s"
proof -
  from assms(2) assms(1) have "save_ok (fst (sv, s)) \<and> save_ok (snd (sv, s))"
  proof (induction rule: rtranclp_induct)
    case base
    then show ?case by simp
  next
    case (step y z)
    then show ?case using game_step_save_ok[of F t0 y z] by blast
  qed
  then show ?thesis by (simp add: save_ok_def)
qed

theorem gold_nonneg_along_runs_witness:
  "save_ok ((defaultSave 0)\<lparr> gold := 12 \<rparr>)
   \<and> (game_step exact_ops 0)\<^sup>*\<^sup>*
        ((defaultSave 0)\<lparr> gold := 12 \<rparr>, (defaultSave 0)\<lparr> gold := 12 \<rparr>)
        (buyUpgrade exact_ops ((defaultSave 0)\<lparr> gold := 12 \<rparr>) Hammer ((defaultSave 0)\<lparr> gold := 12 \<rparr>),
         doClick (buyUpgrade exact_ops ((defaultSave 0)\<lparr> gold := 12 \<rparr>) Hammer ((defaultSave 0)\<lparr> gold := 12 \<rparr>))
           (buyUpgrade exact_ops ((defaultSave 0)\<lparr> gold := 12 \<rparr>) Hammer ((defaultSave 0)\<lparr> gold := 12 \<rparr>)))
   \<and> gold (buyUpgrade exact_ops ((defaultSave 0)\<lparr> gold := 12 \<rparr>) Hammer ((defaultSave 0)\<lparr> gold := 12 \<rparr>)) = 2
   \<and> gold (doClick (buyUpgrade exact_ops ((defaultSave 0)\<lparr> gold := 12 \<rparr>) Hammer ((defaultSave 0)\<lparr> gold := 12 \<rparr>))
           (buyUpgrade exact_ops ((defaultSave 0)\<lparr> gold := 12 \<rparr>) Hammer ((defaultSave 0)\<lparr> gold := 12 \<rparr>))) = 4"
proof -
  let ?s0 = "(defaultSave 0)\<lparr> gold := 12 \<rparr>"
  let ?s1 = "buyUpgrade exact_ops ?s0 Hammer ?s0"
  let ?s2 = "doClick ?s1 ?s1"
  have ok: "save_ok ?s0" by (simp add: save_ok_def nonneg_rates_def defaultSave_def)
  have 1: "game_step exact_ops 0 (?s0, ?s0) (?s0, ?s1)" by (rule game_step.purchase)
  have 2: "game_step exact_ops 0 (?s0, ?s1) (?s1, ?s1)" by (rule game_step.render)
  have 3: "game_step exact_ops 0 (?s1, ?s1) (?s1, ?s2)" by (rule game_step.click)
  have r: "(game_step exact_ops 0)\<^sup>*\<^sup>* (?s0, ?s0) (?s1, ?s2)"
    using 1 2 3 by (meson rtranclp.rtrancl_into_rtrancl rtranclp.rtrancl_refl)
  have s1: "?s1 = (defaultSave 0)\<lparr> gold := 2, upgrades := (\<lambda>k. 0)(Hammer := 1) \<rparr>"
    using upgradeCost_level0[of exact_ops Hammer] by (simp add: buyUpgrade_def defaultSave_def)
  have g1: "gold ?s1 = 2" unfolding s1 by simp
  have g2: "gold ?s2 = 4" unfolding s1 by (simp add: doClick_def computeDerived_def defaultSave_def Let_def)
  show ?thesis
    using gold_nonneg_along_runs[OF ok r] ok r g1 g2 by simp
qed

text \<open>
  Claim C4 as stated fails for import: the handler installs the pasted object unchecked.
  The text \<^verbatim>\<open>eyJnb2xkIjotNX0=\<close> is the export form of the object with the single field
  \<^verbatim>\<open>gold\<close> of value -5; importing it into the default save, whose gold is 0, gives a
  state with negative gold.
\<close>

theorem import_unchecked_counterexample:
  "0 \<le> gold (defaultSave 0)
   \<and> gold (fst (importTry 0
        (Inr \<lparr> p_version = None, p_gold = Some (- 5), p_goldPerClickBase = None,
               p_goldPerSecondBase = None, p_upgrades = None, p_prestige = None,
               p_lastTick = None \<rparr>)
        (defaultSave 0))) < 0"
  by (simp add: importTry_def spread_over_def defaultSave_def)

subsection \<open>Loading\<close>

lemma spread_over_all_fields: "spread_over d (all_fields sv) = sv"
  by (simp add: spread_over_def all_fields_def)

text \<open>
  Claim C7. \<^verbatim>\<open>loadSave\<close> returns a save for every outcome of the storage and of the parser:
  the defaults when reading the storage throws, when nothing or the empty text is stored and
  when the stored text does not parse; otherwise the parsed object spread over the defaults,
  so that every field is the parsed one if the stored object has it and the default if not.
\<close>

theorem load_never_fails:
  "loadSave P t0 (Inl e) = defaultSave t0
   \<and> loadSave P t0 (Inr None) = defaultSave t0
   \<and> loadSave P t0 (Inr (Some [])) = defaultSave t0
   \<and> (JSON_parse P raw = Inl e \<longrightarrow> loadSave P t0 (Inr (Some raw)) = defaultSave t0)
   \<and> (raw \<noteq> [] \<and> JSON_parse P raw = Inr parsed \<longrightarrow>
        (let sv = loadSave P t0 (Inr (Some raw)); d = defaultSave t0
         in sv = spread_over d parsed
            \<and> version sv = (case p_version parsed of None \<Rightarrow> version d | Some v \<Rightarrow> v)
            \<and> gold sv = (case p_gold parsed of None \<Rightarrow> gold d | Some v \<Rightarrow> v)
            \<and> goldPerClickBase sv
                 = (case p_goldPerClickBase parsed of None \<Rightarrow> goldPerClickBase d | Some v \<Rightarrow> v)
            \<and> goldPerSecondBase sv
                 = (case p_goldPerSecondBase parsed of None \<Rightarrow> goldPerSecondBase d | Some v \<Rightarrow> v)
            \<and> upgrades sv = (case p_upgrades parsed of None \<Rightarrow> upgrades d | Some v \<Rightarrow> v)
            \<and> prestige sv = (case p_prestige parsed of None \<Rightarrow> prestige d | Some v \<Rightarrow> v)
            \<and> lastTick sv = (case p_lastTick parsed of None \<Rightarrow> lastTick d | Some v \<Rightarrow> v)))"
  by (simp add: loadSave_def loadSave_try_def spread_over_def Let_def)

theorem load_never_fails_witness:
  \<open>JSON_parse (fixed_platform ''{"gold":7}''
       \<lparr> p_version = None, p_gold = Some 7, p_goldPerClickBase = None,
         p_goldPerSecondBase = None, p_upgrades = None, p_prestige = None,
         p_lastTick = None \<rparr>) ''{"gol'' = Inl SyntaxError
   \<and> loadSave (fixed_platform ''{"gold":7}''
       \<lparr> p_version = None, p_gold = Some 7, p_goldPerClickBase = None,
         p_goldPerSecondBase = None, p_upgrades = None, p_prestige = None,
         p_lastTick = None \<rparr>) 0 (Inr (Some ''{"gol'')) = defaultSave 0
   \<and> loadSave (fixed_platform ''{"gold":7}''
       \<lparr> p_version = None, p_gold = Some 7, p_goldPerClickBase = None,
         p_goldPerSecondBase = None, p_upgrades = None, p_prestige = None,
         p_lastTick = None \<rparr>) 0 (Inr (Some ''{"gold":7}'')) = (defaultSave 0)\<lparr> gold := 7 \<rparr>\<close>
proof -
  let ?obj = "\<lparr> p_version = None, p_gold = Some (7 :: real), p_goldPerClickBase = None,
         p_goldPerSecondBase = None, p_upgrades = None, p_prestige = None,
         p_lastTick = None \<rparr>"
  let ?P = \<open>fixed_platform ''{"gold":7}'' ?obj\<close>
  have a: \<open>JSON_parse ?P ''{"gol'' = Inl SyntaxError\<close>
    by (simp add: fixed_platform_def)
  have b: \<open>JSON_parse ?P ''{"gold":7}'' = Inr ?obj\<close>
    by (simp add: fixed_platform_def)
  show ?thesis
    using a b load_never_fails[of ?P 0 SyntaxError \<open>''{"gol''\<close> ?obj]
      load_never_fails[of ?P 0 SyntaxError \<open>''{"gold":7}''\<close> ?obj]
    by (simp add: Let_def spread_over_def defaultSave_def)
qed

subsection \<open>Export and import\<close>

lemma import_nothing_pasted:
  "importSave P t0 None cur = (cur, None) \<and> importSave P t0 (Some []) cur = (cur, None)"
  by (simp add: importSave_def)

text \<open>
  Claim C8. Suppose the browser's text functions are inverse to each other as documented:
  \<^verbatim>\<open>JSON.parse\<close> returns the fields of a save from its \<^verbatim>\<open>JSON.stringify\<close> text,
  \<^verbatim>\<open>decodeURIComponent(escape(_))\<close> undoes \<^verbatim>\<open>unescape(encodeURIComponent(_))\<close>, and
  \<^verbatim>\<open>atob\<close> undoes \<^verbatim>\<open>btoa\<close>. Then importing the exported text of a save gives exactly
  that save, whatever the current state, and no alert; and a pasted text for which a step of
  the decoding throws leaves the current state as it is and shows the alert.
\<close>

theorem export_import_roundtrip:
  assumes json: "JSON_parse P (JSON_stringify P sv) = Inr (all_fields sv)"
    and uri: "\<forall>j u. encodeURIComponent P j = Inr u
                \<longrightarrow> decodeURIComponent P (escape P (unescape P u)) = Inr j"
    and b64: "\<forall>b t. btoa P b = Inr t \<longrightarrow> atob P t = Inr b"
  shows "(exportSave P sv = Inr txt \<and> txt \<noteq> [] \<longrightarrow> importSave P t0 (Some txt) cur = (sv, None))
         \<and> (txt \<noteq> [] \<and> decodeImport P txt = Inl e
              \<longrightarrow> importSave P t0 (Some txt) cur = (cur, Some ''Invalid save code''))"
proof (intro conjI impI)
  assume h: "exportSave P sv = Inr txt \<and> txt \<noteq> []"
  then obtain u where u: "encodeURIComponent P (JSON_stringify P sv) = Inr u"
    and t: "btoa P (unescape P u) = Inr txt"
    by (auto simp add: exportSave_def split: sum.splits)
  from b64 t have 1: "atob P txt = Inr (unescape P u)" by blast
  from uri u have 2: "decodeURIComponent P (escape P (unescape P u)) = Inr (JSON_stringify P sv)"
    by blast
  have "decodeImport P txt = Inr (all_fields sv)"
    by (simp add: decodeImport_def 1 2 json)
  then show "importSave P t0 (Some txt) cur = (sv, None)"
    using h by (simp add: importSave_def importTry_def spread_over_all_fields)
next
  assume "txt \<noteq> [] \<and> decodeImport P txt = Inl e"
  then show "importSave P t0 (Some txt) cur = (cur, Some ''Invalid save code'')"
    by (simp add: importSave_def importTry_def)
qed

theorem export_import_roundtrip_witness:
  "exportSave (fixed_platform ''save'' (all_fields (defaultSave 0))) (defaultSave 0) = Inr ''save''
   \<and> importSave (fixed_platform ''save'' (all_fields (defaultSave 0))) 1 (Some ''save'')
        ((defaultSave 1)\<lparr> gold := 3 \<rparr>) = (defaultSave 0, None)
   \<and> decodeImport (fixed_platform ''save'' (all_fields (defaultSave 0))) ''sav'' = Inl SyntaxError
   \<and> importSave (fixed_platform ''save'' (all_fields (defaultSave 0))) 1 (Some ''sav'')
        ((defaultSave 1)\<lparr> gold := 3 \<rparr>) = ((defaultSave 1)\<lparr> gold := 3 \<rparr>, Some ''Invalid save code'')"
proof -
  let ?P = "fixed_platform ''save'' (all_fields (defaultSave 0))"
  have json: "JSON_parse ?P (JSON_stringify ?P (defaultSave 0)) = Inr (all_fields (defaultSave 0))"
    by (simp add: fixed_platform_def)
  have uri: "\<forall>j u. encodeURIComponent ?P j = Inr u
               \<longrightarrow> decodeURIComponent ?P (escape ?P (unescape ?P u)) = Inr j"
    by (simp add: fixed_platform_def)
  have b64: "\<forall>b t. btoa ?P b = Inr t \<longrightarrow> atob ?P t = Inr b"
    by (simp add: fixed_platform_def)
  have e: "exportSave ?P (defaultSave 0) = Inr ''save''"
    by (simp add: exportSave_def fixed_platform_def)
  have d: "decodeImport ?P ''sav'' = Inl SyntaxError"
    by (simp add: decodeImport_def fixed_platform_def)
  show ?thesis
    using e d
      export_import_roundtrip[OF json uri b64, of "''save''" 1 "(defaultSave 1)\<lparr> gold := 3 \<rparr>"]
      export_import_roundtrip[OF json uri b64, of "''sav''" 1 "(defaultSave 1)\<lparr> gold := 3 \<rparr>" SyntaxError]
    by simp
qed

end
